theory Spec2Isabelle
  imports Main "HOL-Library.Char_ord" "HOL-Library.List_Lexorder"
begin

unbundle bit_operations_syntax

section \<open>The salted graph: version digests of luigi tasks\<close>

text \<open>
  The module \<^verbatim>\<open>salted_demo.py\<close> derives a version string for a task of a luigi
  dependency graph from the versions of the tasks it requires, the source text of its
  class and its significant parameters, and puts a prefix of that string into the path
  of the task's output:
  \<^item> \<^verbatim>\<open>get_salted_version(task)\<close> computes the version (a SHA-256 hex digest);
  \<^item> \<^verbatim>\<open>SaltedTask.salt_target(target_type, file_pattern, **kwargs)\<close> formats the
    path and constructs the target.

  Python text is a \<open>string\<close> whose characters are the code points U+0000 to U+00FF,
  ordered by code point (as Python orders \<^verbatim>\<open>str\<close>). Python integers are \<open>int\<close>.
  Every exception the two functions can raise is a value of \<open>error\<close>.

  \<open>get_salted_version\<close> is given twice. The first takes the text that
  \<^verbatim>\<open>inspect.getsource\<close> returns as part of the node; what is hashed is stated of it.
  The second, \<open>get_salted_version_io\<close>, takes that text from the file system as
  \<^verbatim>\<open>inspect.getsource\<close> does, and returns what the call reads and changes as well;
  its result is the result of the first on the texts read.
\<close>

subsection \<open>SHA-256 (\<^verbatim>\<open>hashlib.sha256\<close>), after FIPS 180-4\<close>

text \<open>
  A 32-bit word is a natural number below \<open>2 ^ 32\<close>; every sum is reduced modulo
  \<open>2 ^ 32 = 4294967296\<close>. A byte is a natural number below 256.
\<close>

definition rotr :: "nat \<Rightarrow> nat \<Rightarrow> nat" where
  "rotr n x = drop_bit n x + push_bit (32 - n) (take_bit n x)"

definition Ch :: "nat \<Rightarrow> nat \<Rightarrow> nat \<Rightarrow> nat" where
  "Ch x y z = (x AND y) XOR ((4294967295 - x) AND z)"

definition Maj :: "nat \<Rightarrow> nat \<Rightarrow> nat \<Rightarrow> nat" where
  "Maj x y z = (x AND y) XOR (x AND z) XOR (y AND z)"

definition bsig0 :: "nat \<Rightarrow> nat" where
  "bsig0 x = rotr 2 x XOR rotr 13 x XOR rotr 22 x"

definition bsig1 :: "nat \<Rightarrow> nat" where
  "bsig1 x = rotr 6 x XOR rotr 11 x XOR rotr 25 x"

definition ssig0 :: "nat \<Rightarrow> nat" where
  "ssig0 x = rotr 7 x XOR rotr 18 x XOR drop_bit 3 x"

definition ssig1 :: "nat \<Rightarrow> nat" where
  "ssig1 x = rotr 17 x XOR rotr 19 x XOR drop_bit 10 x"

definition K256 :: "nat list" where
  "K256 = [
    1116352408, 1899447441, 3049323471, 3921009573, 961987163, 1508970993, 2453635748, 2870763221,
    3624381080, 310598401, 607225278, 1426881987, 1925078388, 2162078206, 2614888103, 3248222580,
    3835390401, 4022224774, 264347078, 604807628, 770255983, 1249150122, 1555081692, 1996064986,
    2554220882, 2821834349, 2952996808, 3210313671, 3336571891, 3584528711, 113926993, 338241895,
    666307205, 773529912, 1294757372, 1396182291, 1695183700, 1986661051, 2177026350, 2456956037,
    2730485921, 2820302411, 3259730800, 3345764771, 3516065817, 3600352804, 4094571909, 275423344,
    430227734, 506948616, 659060556, 883997877, 958139571, 1322822218, 1537002063, 1747873779,
    1955562222, 2024104815, 2227730452, 2361852424, 2428436474, 2756734187, 3204031479, 3329325298]"

type_synonym state256 = "nat \<times> nat \<times> nat \<times> nat \<times> nat \<times> nat \<times> nat \<times> nat"

definition H256_init :: state256 where
  "H256_init = (1779033703, 3144134277, 1013904242, 2773480762,
                1359893119, 2600822924, 528734635, 1541459225)"

text \<open>The message schedule is kept newest first: the head of \<open>ws\<close> is \<open>W[t-1]\<close>.\<close>

definition next_w :: "nat list \<Rightarrow> nat" where
  "next_w ws = (ssig1 (ws ! 1) + ws ! 6 + ssig0 (ws ! 14) + ws ! 15) mod 4294967296"

fun schedule :: "nat \<Rightarrow> nat list \<Rightarrow> nat list" where
  "schedule 0 ws = ws"
| "schedule (Suc n) ws = schedule n (next_w ws # ws)"

fun round256 :: "state256 \<Rightarrow> nat \<times> nat \<Rightarrow> state256" where
  "round256 (a, b, c, d, e, f, g, h) (k, w) =
     (let t1 = (h + bsig1 e + Ch e f g + k + w) mod 4294967296;
          t2 = (bsig0 a + Maj a b c) mod 4294967296
      in ((t1 + t2) mod 4294967296, a, b, c, (d + t1) mod 4294967296, e, f, g))"

fun add_state :: "state256 \<Rightarrow> state256 \<Rightarrow> state256" where
  "add_state (a, b, c, d, e, f, g, h) (a', b', c', d', e', f', g', h') =
     ((a + a') mod 4294967296, (b + b') mod 4294967296,
      (c + c') mod 4294967296, (d + d') mod 4294967296,
      (e + e') mod 4294967296, (f + f') mod 4294967296,
      (g + g') mod 4294967296, (h + h') mod 4294967296)"

definition compress :: "state256 \<Rightarrow> nat list \<Rightarrow> state256" where
  "compress hs block =
     add_state hs (foldl round256 hs (zip K256 (rev (schedule 48 (rev block)))))"

fun be32 :: "nat list \<Rightarrow> nat list" where
  "be32 (a # b # c # d # bs) = (((a * 256 + b) * 256 + c) * 256 + d) # be32 bs"
| "be32 _ = []"

fun blocks :: "nat list \<Rightarrow> nat list list" where
  "blocks (w0 # w1 # w2 # w3 # w4 # w5 # w6 # w7 # w8 # w9 # w10 # w11 # w12 # w13 # w14 # w15 # ws) =
     [w0, w1, w2, w3, w4, w5, w6, w7, w8, w9, w10, w11, w12, w13, w14, w15] # blocks ws"
| "blocks _ = []"

text \<open>
  Padding: the byte \<open>0x80\<close>, zero bytes up to 56 modulo 64, and the length of the
  message in bits as eight bytes, most significant first.
\<close>

definition pad :: "nat list \<Rightarrow> nat list" where
  "pad m = m @ [128] @ replicate ((119 - length m mod 64) mod 64) 0
             @ map (\<lambda>i. (8 * length m) div 256 ^ i mod 256) [7, 6, 5, 4, 3, 2, 1, 0]"

definition sha256 :: "nat list \<Rightarrow> state256" where
  "sha256 m = foldl compress H256_init (blocks (be32 (pad m)))"

definition hexdigit :: "nat \<Rightarrow> char" where
  "hexdigit n = ''0123456789abcdef'' ! (n mod 16)"

definition hex32 :: "nat \<Rightarrow> string" where
  "hex32 w = map (\<lambda>i. hexdigit (w div 16 ^ i)) [7, 6, 5, 4, 3, 2, 1, 0]"

fun hexdigest :: "state256 \<Rightarrow> string" where
  "hexdigest (a, b, c, d, e, f, g, h) =
     hex32 a @ hex32 b @ hex32 c @ hex32 d @ hex32 e @ hex32 f @ hex32 g @ hex32 h"

text \<open>The characters of a lowercase hexadecimal string.\<close>

definition lowercase_hex :: "char set" where
  "lowercase_hex = set ''0123456789abcdef''"

subsection \<open>\<^verbatim>\<open>str.encode()\<close>: UTF-8\<close>

text \<open>A code point below U+0080 is one byte, one from U+0080 to U+00FF is two.\<close>

fun utf8 :: "char \<Rightarrow> nat list" where
  "utf8 c = (let n = of_char c :: nat in
     if n < 128 then [n] else [192 + n div 64, 128 + n mod 64])"

definition encode :: "string \<Rightarrow> nat list" where
  "encode s = concat (map utf8 s)"

subsection \<open>Python values, \<^verbatim>\<open>repr\<close> and \<^verbatim>\<open>str\<close>\<close>

text \<open>
  A parameter value is \<^verbatim>\<open>None\<close>, a \<^verbatim>\<open>bool\<close>, an \<^verbatim>\<open>int\<close>, a \<^verbatim>\<open>str\<close>, or an object of
  any other class. Of such an object the two functions only ever take \<^verbatim>\<open>repr()\<close> and
  \<^verbatim>\<open>format(_, '')\<close>, so \<open>PyObject r s\<close> carries the texts \<open>r\<close> and \<open>s\<close> that these
  return (a \<^verbatim>\<open>datetime.date\<close> is \<open>PyObject ''datetime.date(2018, 3, 7)'' ''2018-03-07''\<close>,
  a \<^verbatim>\<open>luigi.date_interval.Date\<close> is \<open>PyObject ''2018-03-07'' ''2018-03-07''\<close>).
\<close>

datatype pyval = PyNone | PyBool bool | PyInt int | PyStr string | PyObject string string

fun dec_nat :: "nat \<Rightarrow> string" where
  "dec_nat n = (if n < 10 then [''0123456789'' ! n]
                else dec_nat (n div 10) @ [''0123456789'' ! (n mod 10)])"

declare dec_nat.simps [simp del]

definition dec_int :: "int \<Rightarrow> string" where
  "dec_int i = (if i < 0 then CHR ''-'' # dec_nat (nat (- i)) else dec_nat (nat i))"

definition squote :: char where "squote = CHR 0x27"
definition dquote :: char where "dquote = CHR 0x22"
definition backslash :: char where "backslash = CHR 0x5C"

definition hex_escape :: "nat \<Rightarrow> string" where
  "hex_escape n = [backslash, CHR ''x'', hexdigit (n div 16), hexdigit n]"

text \<open>
  \<^verbatim>\<open>str.isprintable\<close> on U+0000 to U+00FF: the controls, U+00A0 (no-break space) and
  U+00AD (soft hyphen) are not printable.
\<close>

definition isprintable :: "nat \<Rightarrow> bool" where
  "isprintable n = (32 \<le> n \<and> n < 127 \<or> 160 < n \<and> n \<noteq> 173)"

definition repr_char :: "char \<Rightarrow> char \<Rightarrow> string" where
  "repr_char quote ch =
     (let n = of_char ch :: nat in
      if ch = quote \<or> ch = backslash then [backslash, ch]
      else if n = 9 then [backslash, CHR ''t'']
      else if n = 10 then [backslash, CHR ''n'']
      else if n = 13 then [backslash, CHR ''r'']
      else if n < 32 \<or> n = 127 then hex_escape n
      else if n < 127 then [ch]
      else if \<not> isprintable n then hex_escape n
      else [ch])"

text \<open>
  \<^verbatim>\<open>repr\<close> of a \<^verbatim>\<open>str\<close> quotes with \<^verbatim>\<open>'\<close>, or with \<^verbatim>\<open>"\<close> when the text has a \<^verbatim>\<open>'\<close> and
  no \<^verbatim>\<open>"\<close>, and escapes the quote, the backslash and what is not printable.
\<close>

definition repr_str :: "string \<Rightarrow> string" where
  "repr_str s =
     (let quote = (if squote \<in> set s \<and> dquote \<notin> set s then dquote else squote)
      in [quote] @ concat (map (repr_char quote) s) @ [quote])"

fun repr :: "pyval \<Rightarrow> string" where
  "repr PyNone = ''None''"
| "repr (PyBool b) = (if b then ''True'' else ''False'')"
| "repr (PyInt i) = dec_int i"
| "repr (PyStr s) = repr_str s"
| "repr (PyObject r s) = r"

text \<open>\<^verbatim>\<open>format(v, '')\<close>, which is \<^verbatim>\<open>str(v)\<close> for these values.\<close>

fun str :: "pyval \<Rightarrow> string" where
  "str (PyStr s) = s"
| "str (PyObject r s) = s"
| "str v = repr v"

subsection \<open>Errors, parameters and task nodes\<close>

text \<open>
  \<open>NotModelled\<close> is not an exception: it marks a format string that uses a part of
  Python's format mini-language this development does not describe.
\<close>

datatype error = KeyError string | AttributeError string | IndexError | ValueError
  | TypeError | NotModelled

text \<open>Of a \<^verbatim>\<open>luigi.Parameter\<close> object only \<^verbatim>\<open>significant\<close> is read.\<close>

datatype param = Parameter (significant: bool)

text \<open>
  A task node, as the two functions see it:
  \<^item> \<open>source\<close>: the text that \<^verbatim>\<open>inspect.getsource(task.__class__)\<close> returns;
  \<^item> \<open>get_params\<close>: \<^verbatim>\<open>task.get_params()\<close>, the (name, Parameter) pairs of the class;
  \<^item> \<open>param_kwargs\<close>: the dict \<^verbatim>\<open>task.param_kwargs\<close>;
  \<^item> \<open>getattr\<close>: the attributes of the instance, as \<^verbatim>\<open>self.salt_length\<close> and a
    \<^verbatim>\<open>{self.name}\<close> field of a pattern read them;
  \<^item> \<open>requires\<close>: \<^verbatim>\<open>flatten(task.requires())\<close>, in that order.
  The requirements are task nodes themselves, so a node is a finite tree and the
  requirement graph has no cycle.
\<close>

datatype task = Task (source: string) (get_params: "(string \<times> param) list")
  (param_kwargs: "string \<rightharpoonup> pyval") (getattr: "string \<rightharpoonup> pyval") (requires: "task list")

subsection \<open>\<^verbatim>\<open>get_salted_version\<close>\<close>

text \<open>The results of a loop or comprehension whose body may raise: the first error wins.\<close>

fun sequence :: "('e + 'a) list \<Rightarrow> 'e + 'a list" where
  "sequence [] = Inr []"
| "sequence (Inl e # rs) = Inl e"
| "sequence (Inr x # rs) = (case sequence rs of Inl e \<Rightarrow> Inl e | Inr xs \<Rightarrow> Inr (x # xs))"

text \<open>\<^verbatim>\<open>sep.join(xs)\<close>\<close>

fun join :: "string \<Rightarrow> string list \<Rightarrow> string" where
  "join sep [] = []"
| "join sep [x] = x"
| "join sep (x # y # ys) = x @ sep @ join sep (y # ys)"

text \<open>
  \<^verbatim>\<open>sorted(task.get_params())\<close> sorts (name, Parameter) tuples. Tuples with different
  names are ordered by their names; two tuples with the same name are ordered by their
  Parameter objects, which have no order: \<^verbatim>\<open>TypeError\<close>.
\<close>

definition sorted_params :: "(string \<times> param) list \<Rightarrow> error + (string \<times> param) list" where
  "sorted_params ps =
     (if distinct (map fst ps) then Inr (sort_key fst ps) else Inl TypeError)"

text \<open>\<^verbatim>\<open>'{}={}'.format(param_name, repr(task.param_kwargs[param_name]))\<close>\<close>

definition format_pair :: "(string \<rightharpoonup> pyval) \<Rightarrow> string \<Rightarrow> error + string" where
  "format_pair kw param_name =
     (case kw param_name of None \<Rightarrow> Inl (KeyError param_name)
      | Some v \<Rightarrow> Inr (param_name @ ''='' @ repr v))"

text \<open>
  The list comprehension of the source: the pairs of the significant parameters, in the
  order of \<^verbatim>\<open>sorted\<close>.
\<close>

definition param_pairs :: "(string \<times> param) list \<Rightarrow> (string \<rightharpoonup> pyval) \<Rightarrow> error + string list" where
  "param_pairs ps kw =
     (case sorted_params ps of Inl e \<Rightarrow> Inl e
      | Inr sps \<Rightarrow>
          sequence (map (\<lambda>(param_name, param). format_pair kw param_name)
                        (filter (\<lambda>(param_name, param). significant param) sps)))"

text \<open>
  \<^verbatim>\<open>','.join([inspect.getsource(task.__class__)] + [...])\<close>: what the task adds to
  the message after the versions of its requirements.
\<close>

definition self_message :: "string \<Rightarrow> (string \<times> param) list \<Rightarrow> (string \<rightharpoonup> pyval) \<Rightarrow> error + string" where
  "self_message src ps kw =
     (case param_pairs ps kw of Inl e \<Rightarrow> Inl e
      | Inr pairs \<Rightarrow> Inr (join '','' (src # pairs)))"

text \<open>
  \<^verbatim>\<open>
  msg = ""
  for req in flatten(task.requires()):
      msg += get_salted_version(req)
  msg += ','.join([...])
  return sha256(msg.encode()).hexdigest()
  \<close>
\<close>

fun get_salted_version :: "task \<Rightarrow> error + string" where
  "get_salted_version (Task src ps kw at reqs) =
     (case sequence (map get_salted_version reqs) of Inl e \<Rightarrow> Inl e
      | Inr salts \<Rightarrow>
         (case self_message src ps kw of Inl e \<Rightarrow> Inl e
          | Inr m \<Rightarrow> Inr (hexdigest (sha256 (encode (concat salts @ m))))))"

text \<open>
  A node is well formed when \<^verbatim>\<open>get_params\<close> names every parameter once and
  \<^verbatim>\<open>param_kwargs\<close> has a value for every significant one, in the node and in all the
  nodes it requires. luigi builds its tasks so.
\<close>

fun well_formed :: "task \<Rightarrow> bool" where
  "well_formed (Task src ps kw at reqs) =
     (distinct (map fst ps)
      \<and> (\<forall>(param_name, param) \<in> set ps. significant param \<longrightarrow> kw param_name \<noteq> None)
      \<and> (\<forall>req \<in> set reqs. well_formed req))"

subsection \<open>\<^verbatim>\<open>str.format(salt=..., self=...)\<close>\<close>

text \<open>
  The call passes no positional argument and the keywords \<^verbatim>\<open>salt\<close> and \<^verbatim>\<open>self\<close>. The
  replacement fields described here are \<^verbatim>\<open>{salt}\<close>, \<^verbatim>\<open>{self.name}\<close>, \<^verbatim>\<open>{name}\<close> for
  any other identifier (no such keyword: \<^verbatim>\<open>KeyError\<close>), and \<^verbatim>\<open>{}\<close> or \<^verbatim>\<open>{0}\<close> (no
  positional argument: \<^verbatim>\<open>IndexError\<close>). Conversions, format specifications, indexing,
  nested fields, attributes of attributes and \<^verbatim>\<open>{self}\<close> itself are \<open>NotModelled\<close>.
\<close>

definition is_digit :: "char \<Rightarrow> bool" where
  "is_digit c = (c \<in> set ''0123456789'')"

definition is_ident_char :: "char \<Rightarrow> bool" where
  "is_ident_char c =
     (c \<in> set ''abcdefghijklmnopqrstuvwxyzABCDEFGHIJKLMNOPQRSTUVWXYZ_0123456789'')"

definition is_identifier :: "string \<Rightarrow> bool" where
  "is_identifier s = (s \<noteq> [] \<and> \<not> is_digit (hd s) \<and> list_all is_ident_char s)"

definition is_index :: "string \<Rightarrow> bool" where
  "is_index s = (length s \<le> 9 \<and> list_all is_digit s)"

definition get_field :: "string \<Rightarrow> task \<Rightarrow> string \<Rightarrow> error + string" where
  "get_field salt self field_name =
     (if is_index field_name then Inl IndexError
      else if field_name = ''salt'' then Inr salt
      else if field_name = ''self'' then Inl NotModelled
      else if is_identifier field_name then Inl (KeyError field_name)
      else if take 5 field_name = ''self.'' \<and> is_identifier (drop 5 field_name) then
        (case getattr self (drop 5 field_name) of
           None \<Rightarrow> Inl (AttributeError (drop 5 field_name))
         | Some v \<Rightarrow> Inr (str v))
      else Inl NotModelled)"

fun prepend :: "string \<Rightarrow> error + string \<Rightarrow> error + string" where
  "prepend s (Inl e) = Inl e"
| "prepend s (Inr r) = Inr (s @ r)"

text \<open>
  One pass from left to right, as Python makes it: text is copied, \<^verbatim>\<open>{{\<close> and \<^verbatim>\<open>}}\<close>
  stand for one brace, a single \<^verbatim>\<open>}\<close> in text and a field that is not closed are a
  \<^verbatim>\<open>ValueError\<close>, and a field is looked up when its closing brace is reached, so the
  first error from the left is the one raised. The second argument is \<open>None\<close> in text
  and \<open>Some acc\<close> inside a field, \<open>acc\<close> holding the field's characters so far, last
  first.
\<close>

fun fmt :: "(string \<Rightarrow> error + string) \<Rightarrow> string option \<Rightarrow> string \<Rightarrow> error + string" where
  "fmt get None [] = Inr []"
| "fmt get None [c] = (if c = CHR ''{'' \<or> c = CHR ''}'' then Inl ValueError else Inr [c])"
| "fmt get None (c # d # cs) =
     (if c = CHR ''{'' then
        (if d = CHR ''{'' then prepend ''{'' (fmt get None cs) else fmt get (Some []) (d # cs))
      else if c = CHR ''}'' then
        (if d = CHR ''}'' then prepend ''}'' (fmt get None cs) else Inl ValueError)
      else prepend [c] (fmt get None (d # cs)))"
| "fmt get (Some acc) [] = Inl ValueError"
| "fmt get (Some acc) (c # cs) =
     (if c = CHR ''}'' then
        (case get (rev acc) of Inl e \<Rightarrow> Inl e | Inr v \<Rightarrow> prepend v (fmt get None cs))
      else if c = CHR ''{'' then Inl NotModelled
      else fmt get (Some (c # acc)) cs)"

definition format :: "string \<Rightarrow> string \<Rightarrow> task \<Rightarrow> error + string" where
  "format file_pattern salt self = fmt (get_field salt self) None file_pattern"

subsection \<open>\<^verbatim>\<open>SaltedTask.salt_target\<close>\<close>

text \<open>
  The slice \<^verbatim>\<open>s[:n]\<close>: \<^verbatim>\<open>None\<close> keeps all of \<open>s\<close>, a \<^verbatim>\<open>bool\<close> is the integer 0 or 1,
  a negative integer counts from the end, and any other index is a \<^verbatim>\<open>TypeError\<close>.
\<close>

fun slice_to :: "string \<Rightarrow> pyval \<Rightarrow> error + string" where
  "slice_to s PyNone = Inr s"
| "slice_to s (PyBool b) = Inr (take (if b then 1 else 0) s)"
| "slice_to s (PyInt n) =
     Inr (if 0 \<le> n then take (nat n) s else take (nat (int (length s) + n)) s)"
| "slice_to s _ = Inl TypeError"

text \<open>
  \<^verbatim>\<open>
  file_path = file_pattern.format(salt=get_salted_version(self)[:self.salt_length], self=self)
  return target_type(file_path, **kwargs)
  \<close>
  The target is constructed by \<open>target_type\<close> from the path and the keyword arguments.
\<close>

definition salt_target :: "task \<Rightarrow> (string \<Rightarrow> 'kw \<Rightarrow> 'tgt) \<Rightarrow> string \<Rightarrow> 'kw \<Rightarrow> error + 'tgt" where
  "salt_target self target_type file_pattern kwargs =
     (case get_salted_version self of Inl e \<Rightarrow> Inl e
      | Inr version \<Rightarrow>
         (case getattr self ''salt_length'' of None \<Rightarrow> Inl (AttributeError ''salt_length'')
          | Some salt_length \<Rightarrow>
             (case slice_to version salt_length of Inl e \<Rightarrow> Inl e
              | Inr salt \<Rightarrow>
                 (case format file_pattern salt self of Inl e \<Rightarrow> Inl e
                  | Inr file_path \<Rightarrow> Inr (target_type file_path kwargs)))))"

text \<open>
  The source defines no exception class of its own. What the design calls a
  \<^verbatim>\<open>TemplateResolutionError\<close>, a pattern that names something the node does not have,
  is in Python the \<^verbatim>\<open>KeyError\<close> or the \<^verbatim>\<open>AttributeError\<close> that \<^verbatim>\<open>str.format\<close> raises.
\<close>

fun TemplateResolutionError :: "error \<Rightarrow> bool" where
  "TemplateResolutionError (KeyError name) = True"
| "TemplateResolutionError (AttributeError name) = True"
| "TemplateResolutionError _ = False"

text \<open>\<^verbatim>\<open>luigi.LocalTarget(path, **kwargs)\<close>: a path and its options; nothing is opened.\<close>

datatype target = LocalTarget (path: string) (options: "(string \<times> pyval) list")

subsection \<open>\<^verbatim>\<open>inspect.getsource\<close> and the file system\<close>

text \<open>
  The logic source text is not stored in the task: each call of
  \<^verbatim>\<open>inspect.getsource(task.__class__)\<close> takes it from the file that defines the class,
  through \<^verbatim>\<open>linecache\<close>. A \<open>world\<close> holds what this reads and changes:
  \<^item> \<open>files\<close>: for the path of a source file, its stamp (size and modification time,
    as \<^verbatim>\<open>os.stat\<close> gives them) and, for the name of each class it defines, the text of
    the definition;
  \<^item> \<open>linecache\<close>: \<^verbatim>\<open>linecache.cache\<close>, the same for each file as it was last read.
  \<^verbatim>\<open>linecache.checkcache\<close> stats the file and drops an entry whose stamp is not the
  file's any more; a file with no entry is read and entered. A file that is not there,
  or that does not define the class: \<^verbatim>\<open>OSError\<close>. The trace of a call lists the kinds
  of operations on the file system it performs, in order (not each system call).
\<close>

datatype io = Stat string | Read string

datatype io_error = OSError | Raised error

record world =
  files :: "string \<rightharpoonup> nat \<times> (string \<rightharpoonup> string)"
  linecache :: "string \<rightharpoonup> nat \<times> (string \<rightharpoonup> string)"

definition find_class :: "(string \<rightharpoonup> string) \<Rightarrow> string \<Rightarrow> io_error + string" where
  "find_class lines cls =
     (case lines cls of None \<Rightarrow> Inl OSError | Some text \<Rightarrow> Inr text)"

definition getsource :: "string \<Rightarrow> string \<Rightarrow> world \<Rightarrow> (io_error + string) \<times> io list \<times> world" where
  "getsource file cls w =
     (case (linecache w file, files w file) of
        (Some (stamp, lines), Some (stamp', lines')) \<Rightarrow>
          if stamp = stamp' then (find_class lines cls, [Stat file], w)
          else (find_class lines' cls, [Stat file, Read file],
                w\<lparr>linecache := (linecache w)(file \<mapsto> (stamp', lines'))\<rparr>)
      | (Some (stamp, lines), None) \<Rightarrow>
          (Inl OSError, [Stat file], w\<lparr>linecache := (linecache w)(file := None)\<rparr>)
      | (None, Some (stamp', lines')) \<Rightarrow>
          (find_class lines' cls, [Stat file, Read file],
           w\<lparr>linecache := (linecache w)(file \<mapsto> (stamp', lines'))\<rparr>)
      | (None, None) \<Rightarrow> (Inl OSError, [Stat file], w))"

text \<open>
  A task as Python holds it: its class, given by the file that defines it and its name,
  in place of a source text.
\<close>

datatype class_task = ClassTask (source_file: string) (class_name: string)
  (class_params: "(string \<times> param) list") (task_kwargs: "string \<rightharpoonup> pyval")
  (task_requires: "class_task list")

text \<open>
  \<^verbatim>\<open>get_salted_version\<close> with the file system passed through: the result, the trace
  and the world after the call. \<open>versions_io\<close> is the loop over the requirements.
\<close>

fun get_salted_version_io :: "class_task \<Rightarrow> world \<Rightarrow> (io_error + string) \<times> io list \<times> world"
  and versions_io :: "class_task list \<Rightarrow> world \<Rightarrow> (io_error + string list) \<times> io list \<times> world" where
  "get_salted_version_io (ClassTask file cls ps kw reqs) w =
     (case versions_io reqs w of
        (Inl e, tr, w') \<Rightarrow> (Inl e, tr, w')
      | (Inr salts, tr, w') \<Rightarrow>
         (case getsource file cls w' of
            (Inl e, tr', w'') \<Rightarrow> (Inl e, tr @ tr', w'')
          | (Inr src, tr', w'') \<Rightarrow>
             (case self_message src ps kw of
                Inl e \<Rightarrow> (Inl (Raised e), tr @ tr', w'')
              | Inr m \<Rightarrow> (Inr (hexdigest (sha256 (encode (concat salts @ m)))), tr @ tr', w''))))"
| "versions_io [] w = (Inr [], [], w)"
| "versions_io (req # reqs) w =
     (case get_salted_version_io req w of
        (Inl e, tr, w') \<Rightarrow> (Inl e, tr, w')
      | (Inr salt, tr, w') \<Rightarrow>
         (case versions_io reqs w' of
            (Inl e, tr', w'') \<Rightarrow> (Inl e, tr @ tr', w'')
          | (Inr salts, tr', w'') \<Rightarrow> (Inr (salt # salts), tr @ tr', w'')))"

text \<open>The text that \<^verbatim>\<open>inspect.getsource\<close> returns in a world, without the effects.\<close>

definition visible_source :: "world \<Rightarrow> string \<Rightarrow> string \<Rightarrow> io_error + string" where
  "visible_source w file cls =
     (case (linecache w file, files w file) of
        (Some (stamp, lines), Some (stamp', lines')) \<Rightarrow>
          if stamp = stamp' then find_class lines cls else find_class lines' cls
      | (Some (stamp, lines), None) \<Rightarrow> Inl OSError
      | (None, Some (stamp', lines')) \<Rightarrow> find_class lines' cls
      | (None, None) \<Rightarrow> Inl OSError)"

text \<open>The version computed from given source texts, and the node with these texts.\<close>

fun version_from :: "(string \<Rightarrow> string \<Rightarrow> io_error + string) \<Rightarrow> class_task \<Rightarrow> io_error + string" where
  "version_from src (ClassTask file cls ps kw reqs) =
     (case sequence (map (version_from src) reqs) of
        Inl e \<Rightarrow> Inl e
      | Inr salts \<Rightarrow>
         (case src file cls of
            Inl e \<Rightarrow> Inl e
          | Inr text \<Rightarrow>
             (case self_message text ps kw of
                Inl e \<Rightarrow> Inl (Raised e)
              | Inr m \<Rightarrow> Inr (hexdigest (sha256 (encode (concat salts @ m)))))))"

fun node_of :: "(string \<Rightarrow> string \<Rightarrow> string) \<Rightarrow> class_task \<Rightarrow> task" where
  "node_of text (ClassTask file cls ps kw reqs) =
     Task (text file cls) ps kw Map.empty (map (node_of text) reqs)"

fun source_files :: "class_task \<Rightarrow> string set" where
  "source_files (ClassTask file cls ps kw reqs) = insert file (\<Union>req \<in> set reqs. source_files req)"

subsection \<open>Nodes used as examples\<close>

text \<open>
  \<^verbatim>\<open>Leaf(date=2018-03-07)\<close>: logic text \<^verbatim>\<open>L\<close>, no requirement, and one significant
  parameter \<^verbatim>\<open>date\<close> whose value renders as \<^verbatim>\<open>2018-03-07\<close>.
\<close>

definition leaf :: task where
  "leaf = Task ''L'' [(''date'', Parameter True)]
            [''date'' \<mapsto> PyObject ''2018-03-07'' ''2018-03-07''] Map.empty []"

text \<open>
  \<^verbatim>\<open>Parent(requires=[Leaf])\<close>: logic text \<^verbatim>\<open>P\<close>, no parameter, the attribute
  \<^verbatim>\<open>salt_length = 6\<close>, and \<open>leaf\<close> as its one requirement.
\<close>

definition parent :: task where
  "parent = Task ''P'' [] Map.empty [''salt_length'' \<mapsto> PyInt 6] [leaf]"

text \<open>
  Two nodes that differ only in the type of one value: the string \<^verbatim>\<open>"1"\<close> and the
  integer \<^verbatim>\<open>1\<close>.
\<close>

definition str_one :: task where
  "str_one = Task ''L'' [(''n'', Parameter True)] [''n'' \<mapsto> PyStr ''1''] Map.empty []"

definition int_one :: task where
  "int_one = Task ''L'' [(''n'', Parameter True)] [''n'' \<mapsto> PyInt 1] Map.empty []"

text \<open>
  Three parameters as \<^verbatim>\<open>get_params\<close> may list them, \<^verbatim>\<open>c\<close> not significant, and their
  values.
\<close>

definition three_params :: "(string \<times> param) list" where
  "three_params = [(''b'', Parameter True), (''c'', Parameter False), (''a'', Parameter True)]"

definition three_values :: "string \<rightharpoonup> pyval" where
  "three_values = [''a'' \<mapsto> PyInt 1, ''b'' \<mapsto> PyStr ''1'', ''c'' \<mapsto> PyNone]"

text \<open>
  A \<^verbatim>\<open>SaltedTask\<close> with its three parameters (all significant, as luigi parameters are
  unless declared otherwise), constructed with \<^verbatim>\<open>salt_workflow=False\<close>; luigi sets
  every parameter value as an attribute of the instance too.
\<close>

definition salted_task_params :: "(string \<times> param) list" where
  "salted_task_params = [(''salt_workflow'', Parameter True),
     (''salt_parameters'', Parameter True), (''salt_length'', Parameter True)]"

definition salt_workflow_off :: "string \<rightharpoonup> pyval" where
  "salt_workflow_off = [''salt_workflow'' \<mapsto> PyBool False,
     ''salt_parameters'' \<mapsto> PyBool False, ''salt_length'' \<mapsto> PyInt 6]"

definition unsalted :: task where
  "unsalted = Task ''S'' salted_task_params salt_workflow_off salt_workflow_off []"

text \<open>\<open>leaf\<close> and \<open>parent\<close> with the date of the leaf changed to the next day.\<close>

definition leaf_next_day :: task where
  "leaf_next_day = Task ''L'' [(''date'', Parameter True)]
            [''date'' \<mapsto> PyObject ''2018-03-08'' ''2018-03-08''] Map.empty []"

definition parent_next_day :: task where
  "parent_next_day = Task ''P'' [] Map.empty [''salt_length'' \<mapsto> PyInt 6] [leaf_next_day]"






section \<open>Properties\<close>

subsection \<open>Evaluating SHA-256 on a given message\<close>

lemma schedule_numeral: "schedule (numeral k) ws = schedule (pred_numeral k) (next_w ws # ws)"
  by (simp add: numeral_eq_Suc)

lemma replicate_numeral: "replicate (numeral k) x = x # replicate (pred_numeral k) x"
  by (simp add: numeral_eq_Suc)

lemma length_Cons_plus: "length (x # xs) = 1 + length xs"
  by simp

lemmas sha256_eval = encode_def pad_def length_Cons_plus replicate_numeral sha256_def
  compress_def K256_def H256_init_def schedule_numeral next_w_def rotr_def Ch_def Maj_def
  bsig0_def bsig1_def ssig0_def ssig1_def hex32_def hexdigit_def

text \<open>The one-block and the two-block test messages of FIPS 180-4.\<close>

lemma sha256_abc:
  "hexdigest (sha256 (encode ''abc'')) =
     ''ba7816bf8f01cfea414140de5dae2223b00361a396177a9cb410ff61f20015ad''"
  by (simp add: sha256_eval del: list.size(4))

lemma sha256_two_blocks:
  "hexdigest (sha256 (encode ''abcdbcdecdefdefgefghfghighijhijkijkljklmklmnlmnomnopnopq'')) =
     ''248d6a61d20638b8e5c026930c3e6039a33ce45964ff2167f6ecedd419db06c1''"
  by (simp add: sha256_eval del: list.size(4))

text \<open>A text of one code point above U+007F, U+00E9, which encodes as two bytes.\<close>

lemma sha256_e_acute:
  "hexdigest (sha256 (encode [CHR 0xE9])) =
     ''4a99557e4033c3539de2eb65472017cad5f9557f7a0625a09f1c3f6e2ba69c4c''"
  by (simp add: sha256_eval del: list.size(4))

subsection \<open>The shape of a digest\<close>

lemma length_hex32: "length (hex32 w) = 8"
  by (simp add: hex32_def)

lemma length_hexdigest: "length (hexdigest s) = 64"
  by (cases s rule: hexdigest.cases) (simp add: length_hex32)

lemma hexdigit_lowercase: "hexdigit n \<in> lowercase_hex"
proof -
  have "n mod 16 < length ''0123456789abcdef''" by simp
  then show ?thesis unfolding hexdigit_def lowercase_hex_def by (rule nth_mem)
qed

lemma set_hex32: "set (hex32 w) \<subseteq> lowercase_hex"
  unfolding hex32_def using hexdigit_lowercase by auto

lemma set_hexdigest: "set (hexdigest s) \<subseteq> lowercase_hex"
  by (cases s rule: hexdigest.cases) (simp add: set_hex32)

subsection \<open>When \<open>get_salted_version\<close> returns\<close>

lemma sequence_map_Inr: "sequence (map Inr xs) = Inr xs"
  by (induction xs) simp_all

lemma sequence_Inr_D: "sequence rs = Inr xs \<Longrightarrow> rs = map Inr xs"
  by (induction rs arbitrary: xs rule: sequence.induct) (auto split: sum.splits)

lemma sequence_Inr_iff: "sequence rs = Inr xs \<longleftrightarrow> rs = map Inr xs"
  using sequence_map_Inr sequence_Inr_D by metis


lemma sorted_params_Inr: "distinct (map fst ps) \<Longrightarrow> sorted_params ps = Inr (sort_key fst ps)"
  by (simp add: sorted_params_def)



subsection \<open>A node without requirements\<close>

lemma param_pairs_none:
  assumes "distinct (map fst ps)" and "\<forall>(param_name, param) \<in> set ps. \<not> significant param"
  shows "param_pairs ps kw = Inr []"
proof -
  have "filter (\<lambda>(param_name, param). significant param) (sort_key fst ps) = []"
    using assms(2) by (auto simp: filter_empty_conv)
  then show ?thesis using assms(1) by (simp add: param_pairs_def sorted_params_Inr)
qed

text \<open>
  C10. A node with no requirements and no significant parameter has, as its version,
  the SHA-256 hex digest of its logic source text alone: nothing is appended to the
  hashed message, no separator either. (Parameters that are not significant may be
  present; their names are distinct, as luigi has them.)
\<close>

theorem logic_only_digest:
  assumes "distinct (map fst ps)" and "\<forall>(param_name, param) \<in> set ps. \<not> significant param"
  shows "get_salted_version (Task src ps kw at []) = Inr (hexdigest (sha256 (encode src)))"
  using param_pairs_none [OF assms] by (simp add: self_message_def)

theorem logic_only_digest_witness:
  "distinct (map fst [(''verbose'', Parameter False)])
   \<and> list_all (\<lambda>(param_name, param). \<not> significant param) [(''verbose'', Parameter False)]
   \<and> get_salted_version
         (Task ''L'' [(''verbose'', Parameter False)] [''verbose'' \<mapsto> PyBool True] Map.empty [])
       = Inr (hexdigest (sha256 (encode ''L'')))"
  using logic_only_digest [of "[(''verbose'', Parameter False)]" "''L''"
      "[''verbose'' \<mapsto> PyBool True]" Map.empty]
  by simp

lemma param_pairs_single:
  assumes "distinct (map fst ps)"
      and "filter (\<lambda>(param_name, param). significant param) ps = [(param_name, param)]"
      and "kw param_name = Some v"
  shows "param_pairs ps kw = Inr [param_name @ ''='' @ repr v]"
proof -
  have "filter (\<lambda>(param_name, param). significant param) (sort_key fst ps)
          = [(param_name, param)]"
    using assms(2) by (simp add: filter_sort)
  then show ?thesis
    using assms(1,3) by (simp add: param_pairs_def sorted_params_Inr format_pair_def)
qed

lemma sha256_leaf_message:
  "hexdigest (sha256 (encode ''L,date=2018-03-07'')) =
     ''1b19b0a994292160e7589337e724fa174edd9d1194ae8deff80976ab097c064c''"
  by (simp add: sha256_eval del: list.size(4))

lemma sha256_leaf_unseparated:
  "hexdigest (sha256 (encode (''L'' @ ''date=2018-03-07''))) =
     ''5401a8c064df73005bb9b24097469879045d28691a85921d1373f187bd627675''"
  by (simp add: sha256_eval del: list.size(4))

lemma leaf_version:
  "get_salted_version leaf =
     Inr ''1b19b0a994292160e7589337e724fa174edd9d1194ae8deff80976ab097c064c''"
  unfolding leaf_def
  by (simp add: self_message_def param_pairs_def sorted_params_def format_pair_def
        sha256_leaf_message)

text \<open>
  C1, as amended. For a node with no requirements, logic source text \<^verbatim>\<open>L\<close> and exactly
  one significant parameter, named \<^verbatim>\<open>date\<close>, whose value renders (by \<^verbatim>\<open>repr\<close>) as
  \<^verbatim>\<open>2018-03-07\<close>, the version is the lowercase hex SHA-256 digest of the message
  \<^verbatim>\<open>L,date=2018-03-07\<close>: the logic text and the pair are joined by a comma.
\<close>

theorem leaf_digest:
  assumes "distinct (map fst ps)"
      and "filter (\<lambda>(param_name, param). significant param) ps = [(''date'', param)]"
      and "kw ''date'' = Some v" and "repr v = ''2018-03-07''"
  shows "get_salted_version (Task ''L'' ps kw at []) =
           Inr (hexdigest (sha256 (encode ''L,date=2018-03-07'')))"
  using param_pairs_single [of ps "''date''" param kw v] assms by (simp add: self_message_def)

theorem leaf_digest_witness:
  "distinct (map fst [(''date'', Parameter True)])
   \<and> filter (\<lambda>(param_name, param). significant param) [(''date'', Parameter True)]
       = [(''date'', Parameter True)]
   \<and> [''date'' \<mapsto> PyObject ''2018-03-07'' ''2018-03-07''] ''date''
       = Some (PyObject ''2018-03-07'' ''2018-03-07'')
   \<and> repr (PyObject ''2018-03-07'' ''2018-03-07'') = ''2018-03-07''
   \<and> get_salted_version leaf = Inr (hexdigest (sha256 (encode ''L,date=2018-03-07'')))"
  using leaf_digest [of "[(''date'', Parameter True)]" "Parameter True"
      "[''date'' \<mapsto> PyObject ''2018-03-07'' ''2018-03-07'']"
      "PyObject ''2018-03-07'' ''2018-03-07''" Map.empty]
  by (simp add: leaf_def)

text \<open>
  C1 as it was stated fails: the version of \<open>leaf\<close> is not the digest of the logic
  text immediately followed by the pair.
\<close>

theorem leaf_digest_counterexample:
  "get_salted_version leaf \<noteq> Inr (hexdigest (sha256 (encode (''L'' @ ''date=2018-03-07''))))"
  by (simp only: leaf_version sha256_leaf_unseparated) simp

subsection \<open>Well-formed nodes\<close>

lemma format_pair_Inr_iff:
  "format_pair kw param_name = Inr y \<longleftrightarrow>
     (\<exists>v. kw param_name = Some v \<and> y = param_name @ ''='' @ repr v)"
  by (auto simp: format_pair_def split: option.splits)

lemma map_eq_map_Inr_D:
  assumes "map f xs = map Inr ys" and "x \<in> set xs"
  shows "\<exists>y. f x = Inr y"
proof -
  have "f x \<in> set (map f xs)" using assms(2) by simp
  then have "f x \<in> set (map Inr ys)" by (simp only: assms(1))
  then show ?thesis by auto
qed

lemma get_salted_version_hex:
  assumes "get_salted_version t = Inr version"
  shows "length version = 64 \<and> set version \<subseteq> lowercase_hex"
proof (cases t)
  case (Task src ps kw at reqs)
  with assms obtain bs where "version = hexdigest (sha256 bs)"
    by (auto split: sum.splits)
  then show ?thesis by (simp add: length_hexdigest set_hexdigest)
qed

text \<open>
  Well-formedness is exactly what \<open>get_salted_version\<close> needs: it returns a version
  only for well-formed nodes.
\<close>

lemma get_salted_version_Inr_well_formed:
  "get_salted_version t = Inr version \<Longrightarrow> well_formed t"
proof (induction t arbitrary: version)
  case (Task src ps kw at reqs)
  from Task.prems obtain salts pairs
    where salts: "sequence (map get_salted_version reqs) = Inr salts"
      and pairs: "param_pairs ps kw = Inr pairs"
    by (auto simp: self_message_def split: sum.splits)
  from salts have m: "map get_salted_version reqs = map Inr salts"
    by (rule sequence_Inr_D)
  have "\<forall>req \<in> set reqs. \<exists>v. get_salted_version req = Inr v"
    using map_eq_map_Inr_D [OF m] by blast
  then have reqs: "\<forall>req \<in> set reqs. well_formed req"
    using Task.IH by blast
  from pairs have d: "distinct (map fst ps)"
    by (auto simp: param_pairs_def sorted_params_def split: if_splits)
  with pairs have
    "sequence (map (\<lambda>(param_name, param). format_pair kw param_name)
       (filter (\<lambda>(param_name, param). significant param) (sort_key fst ps))) = Inr pairs"
    by (simp add: param_pairs_def sorted_params_Inr)
  then have m':
    "map (\<lambda>(param_name, param). format_pair kw param_name)
       (filter (\<lambda>(param_name, param). significant param) (sort_key fst ps)) = map Inr pairs"
    by (rule sequence_Inr_D)
  have "\<forall>x \<in> set (filter (\<lambda>(param_name, param). significant param) (sort_key fst ps)).
          \<exists>y. (\<lambda>(param_name, param). format_pair kw param_name) x = Inr y"
    using map_eq_map_Inr_D [OF m'] by blast
  then have "\<forall>(param_name, param) \<in> set ps.
               significant param \<longrightarrow> (\<exists>y. format_pair kw param_name = Inr y)"
    by auto
  then have "\<forall>(param_name, param) \<in> set ps. significant param \<longrightarrow> kw param_name \<noteq> None"
    by (fastforce simp: format_pair_Inr_iff)
  with d reqs show ?case by simp
qed

subsection \<open>The pairs of the significant parameters\<close>

lemma dec_nat_digit: "n < 10 \<Longrightarrow> dec_nat n = [''0123456789'' ! n]"
  by (simp add: dec_nat.simps)

lemma dec_nat_hd: "dec_nat n \<noteq> [] \<and> hd (dec_nat n) \<in> set ''0123456789''"
proof (induction n rule: dec_nat.induct)
  case (1 n)
  show ?case
  proof (cases "n < 10")
    case True
    then have "''0123456789'' ! n \<in> set ''0123456789''" by (intro nth_mem) simp
    with True show ?thesis by (simp add: dec_nat_digit)
  next
    case False
    with 1 have "dec_nat (n div 10) \<noteq> [] \<and> hd (dec_nat (n div 10)) \<in> set ''0123456789''"
      by simp
    with False show ?thesis by (subst dec_nat.simps, subst (2) dec_nat.simps) simp
  qed
qed

lemma hd_dec_int: "hd (dec_int i) \<in> set ''-0123456789''"
  using dec_nat_hd [of "nat i"] by (auto simp: dec_int_def)

lemma hd_repr_str: "hd (repr_str s) \<in> {squote, dquote}"
  by (simp add: repr_str_def Let_def)

lemma repr_str_int_differ: "repr (PyStr s) \<noteq> repr (PyInt i)"
proof
  assume "repr (PyStr s) = repr (PyInt i)"
  then have "hd (repr_str s) = hd (dec_int i)" by simp
  with hd_repr_str [of s] hd_dec_int [of i] show False
    by (auto simp: squote_def dquote_def)
qed


lemma sha256_str_one:
  "hexdigest (sha256 (encode ([CHR ''L'', CHR '','', CHR ''n'', CHR ''='', CHR 0x27, CHR ''1'', CHR 0x27]))) =
     ''7f0b8410722a957b13302afd0bebf2f817abd9fbea652234ec15378443190926''"
  by (simp add: sha256_eval del: list.size(4))

lemma sha256_int_one:
  "hexdigest (sha256 (encode ''L,n=1'')) =
     ''c2e368eaa5d2fdda593acc055646df563319efc1057d6f2d1e5fa120a82a84ac''"
  by (simp add: sha256_eval del: list.size(4))

lemma repr_str_one: "repr (PyStr ''1'') = [CHR 0x27, CHR ''1'', CHR 0x27]"
  by (simp add: repr_str_def repr_char_def squote_def dquote_def backslash_def Let_def)

lemma repr_int_one: "repr (PyInt 1) = ''1''"
  by (simp add: dec_int_def dec_nat_digit)

lemma str_one_version:
  "get_salted_version str_one =
     Inr ''7f0b8410722a957b13302afd0bebf2f817abd9fbea652234ec15378443190926''"
  unfolding str_one_def
  by (simp add: self_message_def param_pairs_def sorted_params_def format_pair_def
        repr_str_one sha256_str_one del: repr.simps)

lemma int_one_version:
  "get_salted_version int_one =
     Inr ''c2e368eaa5d2fdda593acc055646df563319efc1057d6f2d1e5fa120a82a84ac''"
  unfolding int_one_def
  by (simp add: self_message_def param_pairs_def sorted_params_def format_pair_def
        repr_int_one sha256_int_one del: repr.simps)

lemma param_pairs_sorted:
  assumes "param_pairs ps kw = Inr pairs"
  shows "\<exists>names. sorted names \<and> distinct names
           \<and> set names = {param_name. \<exists>param. (param_name, param) \<in> set ps \<and> significant param}
           \<and> pairs = map (\<lambda>param_name. param_name @ ''='' @ repr (the (kw param_name))) names"
proof -
  let ?sel = "filter (\<lambda>(param_name, param). significant param) (sort_key fst ps)"
  let ?f = "\<lambda>(param_name, param). format_pair kw param_name"
  let ?g = "\<lambda>param_name. param_name @ ''='' @ repr (the (kw param_name))"
  from assms have d: "distinct (map fst ps)"
    by (auto simp: param_pairs_def sorted_params_def split: if_splits)
  with assms have "sequence (map ?f ?sel) = Inr pairs"
    by (simp add: param_pairs_def sorted_params_Inr)
  then have m: "map ?f ?sel = map Inr pairs" by (rule sequence_Inr_D)
  have "\<forall>x \<in> set ?sel. ?f x = Inr (?g (fst x))"
  proof
    fix x assume "x \<in> set ?sel"
    from map_eq_map_Inr_D [OF m this] obtain y where "?f x = Inr y" by blast
    then show "?f x = Inr (?g (fst x))"
      by (cases x) (auto simp: format_pair_Inr_iff)
  qed
  then have "map ?f ?sel = map Inr (map ?g (map fst ?sel))" by simp
  with m have "map Inr pairs = (map Inr (map ?g (map fst ?sel)) :: (error + string) list)"
    by simp
  then have pairs: "pairs = map ?g (map fst ?sel)"
    by (rule map_injective) simp
  have "sorted (map fst (sort_key fst ps))" by (rule sorted_sort_key)
  then have s: "sorted (map fst ?sel)" by (rule sorted_filter)
  have "distinct (map fst (sort_key fst ps))"
    using d by (simp add: distinct_map)
  then have dn: "distinct (map fst ?sel)" by (rule distinct_map_filter)
  have "set (map fst ?sel) = {param_name. \<exists>param. (param_name, param) \<in> set ps \<and> significant param}"
    by force
  with s dn pairs show ?thesis by blast
qed

text \<open>
  C7. In the message a node adds for itself, the significant parameters appear after
  the logic text in ascending order of their names, each once, each as the pair
  \<^verbatim>\<open>name=repr(value)\<close>. \<^verbatim>\<open>repr\<close> tells a string from an integer with the same
  surface text: no string renders as any integer does, so the pairs of the string
  \<^verbatim>\<open>"1"\<close> and of the integer \<^verbatim>\<open>1\<close> differ under every name, and the versions of
  \<open>str_one\<close> and \<open>int_one\<close>, which differ in nothing else, differ.
\<close>

theorem pairs_sorted_by_name:
  assumes "self_message src ps kw = Inr m"
  shows "(\<exists>names. sorted names \<and> distinct names
            \<and> set names = {param_name. \<exists>param. (param_name, param) \<in> set ps \<and> significant param}
            \<and> m = join '','' (src # map (\<lambda>param_name. param_name @ ''='' @ repr (the (kw param_name))) names))
       \<and> (\<forall>s i. repr (PyStr s) \<noteq> repr (PyInt i))
       \<and> (\<forall>param_name. param_name @ ''='' @ repr (PyStr ''1'') \<noteq> param_name @ ''='' @ repr (PyInt 1))
       \<and> get_salted_version str_one \<noteq> get_salted_version int_one"
proof -
  from assms obtain pairs where "param_pairs ps kw = Inr pairs" and "m = join '','' (src # pairs)"
    by (auto simp: self_message_def split: sum.splits)
  with param_pairs_sorted [of ps kw pairs] have
    "\<exists>names. sorted names \<and> distinct names
            \<and> set names = {param_name. \<exists>param. (param_name, param) \<in> set ps \<and> significant param}
            \<and> m = join '','' (src # map (\<lambda>param_name. param_name @ ''='' @ repr (the (kw param_name))) names)"
    by auto
  moreover have "\<forall>s i. repr (PyStr s) \<noteq> repr (PyInt i)"
    using repr_str_int_differ by blast
  moreover have "\<forall>param_name. param_name @ ''='' @ repr (PyStr ''1'') \<noteq> param_name @ ''='' @ repr (PyInt 1)"
    using repr_str_int_differ by simp
  moreover have "get_salted_version str_one \<noteq> get_salted_version int_one"
    by (simp only: str_one_version int_one_version) simp
  ultimately show ?thesis by blast
qed


lemma self_message_three:
  "self_message ''L'' three_params three_values =
     Inr (''L,a=1,b='' @ [CHR 0x27, CHR ''1'', CHR 0x27])"
  by (simp add: self_message_def param_pairs_def sorted_params_def format_pair_def
        three_params_def three_values_def repr_str_one repr_int_one del: repr.simps)

theorem pairs_sorted_by_name_witness:
  "self_message ''L'' three_params three_values = Inr (''L,a=1,b='' @ [CHR 0x27, CHR ''1'', CHR 0x27])
   \<and> (\<exists>names. sorted names \<and> distinct names
         \<and> set names = {param_name. \<exists>param. (param_name, param) \<in> set three_params \<and> significant param}
         \<and> ''L,a=1,b='' @ [CHR 0x27, CHR ''1'', CHR 0x27]
             = join '','' (''L'' # map (\<lambda>param_name. param_name @ ''='' @ repr (the (three_values param_name))) names))"
  using pairs_sorted_by_name [OF self_message_three] self_message_three by blast

subsection \<open>What the version depends on\<close>

text \<open>Values of parameters that are not significant do not reach the message.\<close>

lemma param_pairs_cong:
  assumes "\<forall>(param_name, param) \<in> set ps. significant param \<longrightarrow> kw param_name = kw' param_name"
  shows "param_pairs ps kw = param_pairs ps kw'"
proof -
  have eq: "map (\<lambda>(param_name, param). format_pair kw param_name)
          (filter (\<lambda>(param_name, param). significant param) (sort_key fst ps))
      = map (\<lambda>(param_name, param). format_pair kw' param_name)
          (filter (\<lambda>(param_name, param). significant param) (sort_key fst ps))"
    using assms by (auto simp: format_pair_def)
  show ?thesis
    by (cases "distinct (map fst ps)")
      (simp_all only: param_pairs_def sorted_params_def if_True if_False sum.case eq)
qed

lemma insignificant_parameters_ignored:
  assumes "\<forall>(param_name, param) \<in> set ps. significant param \<longrightarrow> kw param_name = kw' param_name"
  shows "get_salted_version (Task src ps kw at reqs) = get_salted_version (Task src ps kw' at' reqs)"
proof -
  have "self_message src ps kw = self_message src ps kw'"
    by (simp add: self_message_def param_pairs_cong [OF assms])
  then show ?thesis by (simp cong: sum.case_cong)
qed

text \<open>
  A node with one requirement and no significant parameter hashes the version of the
  requirement immediately followed by its own logic text.
\<close>

lemma parent_digest:
  assumes "get_salted_version req = Inr salt"
      and "distinct (map fst ps)" and "\<forall>(param_name, param) \<in> set ps. \<not> significant param"
  shows "get_salted_version (Task ''P'' ps kw at [req]) =
           Inr (hexdigest (sha256 (encode (salt @ ''P''))))"
  using assms(1) param_pairs_none [OF assms(2,3)] by (simp add: self_message_def)

subsection \<open>Formatting a pattern\<close>

lemma prepend_Nil: "prepend [] r = r"
  by (cases r) simp_all

lemma prepend_prepend: "prepend s (prepend s' r) = prepend (s @ s') r"
  by (cases r) simp_all

lemma fmt_plain:
  "CHR ''{'' \<notin> set s \<Longrightarrow> CHR ''}'' \<notin> set s \<Longrightarrow> fmt get None s = Inr s"
  by (induction s rule: induct_list012) auto

lemma fmt_append:
  "fmt get mode pre = Inr r \<Longrightarrow> fmt get mode (pre @ rest) = prepend r (fmt get None rest)"
proof (induction get mode pre arbitrary: r rule: fmt.induct)
  case (1 get)
  then show ?case by (simp add: prepend_Nil)
next
  case (2 get c)
  then show ?case by (cases rest) (auto split: if_splits)
next
  case (3 get c d cs)
  show ?case
  proof (cases "c = CHR ''{''")
    case True
    show ?thesis
    proof (cases "d = CHR ''{''")
      case True
      with \<open>c = CHR ''{''\<close> "3.prems" obtain r' where r': "fmt get None cs = Inr r'" "r = ''{'' @ r'"
        by (cases "fmt get None cs") auto
      with "3.IH"(1) [OF \<open>c = CHR ''{''\<close> True r'(1)] True \<open>c = CHR ''{''\<close> show ?thesis
        by (simp add: prepend_prepend)
    next
      case False
      with \<open>c = CHR ''{''\<close> "3.prems" have "fmt get (Some []) (d # cs) = Inr r" by simp
      from "3.IH"(2) [OF \<open>c = CHR ''{''\<close> False this] False \<open>c = CHR ''{''\<close> show ?thesis by simp
    qed
  next
    case False
    show ?thesis
    proof (cases "c = CHR ''}''")
      case True
      with False "3.prems" have d: "d = CHR ''}''" by (auto split: if_splits)
      with True False "3.prems" obtain r' where r': "fmt get None cs = Inr r'" "r = ''}'' @ r'"
        by (cases "fmt get None cs") auto
      with "3.IH"(3) [OF False True d r'(1)] True d False show ?thesis
        by (simp add: prepend_prepend)
    next
      case c: False
      with False "3.prems" obtain r' where r': "fmt get None (d # cs) = Inr r'" "r = [c] @ r'"
        by (cases "fmt get None (d # cs)") auto
      with "3.IH"(4) [OF False c r'(1)] False c show ?thesis
        by (simp add: prepend_prepend)
    qed
  qed
next
  case (4 get acc)
  then show ?case by simp
next
  case (5 get acc c cs)
  show ?case
  proof (cases "c = CHR ''}''")
    case True
    with "5.prems" obtain v r' where v: "get (rev acc) = Inr v" "fmt get None cs = Inr r'" "r = v @ r'"
      by (cases "get (rev acc)"; cases "fmt get None cs") auto
    with "5.IH"(1) [OF True v(1,2)] True show ?thesis
      by (simp add: prepend_prepend)
  next
    case False
    with "5.prems" have c: "c \<noteq> CHR ''{''" and "fmt get (Some (c # acc)) cs = Inr r"
      by (auto split: if_splits)
    with "5.IH"(2) [OF False c this(2)] False show ?thesis by simp
  qed
qed

lemma fmt_in_field:
  "CHR ''{'' \<notin> set f \<Longrightarrow> CHR ''}'' \<notin> set f \<Longrightarrow>
   fmt get (Some acc) (f @ CHR ''}'' # rest) =
     (case get (rev acc @ f) of Inl e \<Rightarrow> Inl e | Inr v \<Rightarrow> prepend v (fmt get None rest))"
  by (induction f arbitrary: acc) auto

lemma fmt_field:
  assumes "CHR ''{'' \<notin> set f" and "CHR ''}'' \<notin> set f"
  shows "fmt get None (CHR ''{'' # f @ CHR ''}'' # rest) =
     (case get f of Inl e \<Rightarrow> Inl e | Inr v \<Rightarrow> prepend v (fmt get None rest))"
proof (cases f)
  case Nil
  then show ?thesis by simp
next
  case (Cons d f')
  with assms have "d \<noteq> CHR ''{''" by auto
  then have "fmt get None (CHR ''{'' # f @ CHR ''}'' # rest) = fmt get (Some []) (f @ CHR ''}'' # rest)"
    using Cons by simp
  then show ?thesis using fmt_in_field [OF assms, of get "[]" rest] by simp
qed


lemma not_is_index_salt: "\<not> is_index ''salt''"
  by (simp add: is_index_def is_digit_def)

lemma get_field_salt: "get_field salt self ''salt'' = Inr salt"
  by (simp add: get_field_def not_is_index_salt)

lemma format_plain:
  "CHR ''{'' \<notin> set s \<Longrightarrow> CHR ''}'' \<notin> set s \<Longrightarrow> format s salt self = Inr s"
  by (simp add: format_def fmt_plain)

lemma format_salt:
  assumes "format pre salt self = Inr pre'" and "format post salt self = Inr post'"
  shows "format (pre @ ''{salt}'' @ post) salt self = Inr (pre' @ salt @ post')"
proof -
  have "fmt (get_field salt self) None (''{salt}'' @ post) = prepend salt (fmt (get_field salt self) None post)"
    using fmt_field [of "''salt''" "get_field salt self" post] by (simp add: get_field_salt)
  then show ?thesis
    using assms fmt_append [of "get_field salt self" None pre pre' "''{salt}'' @ post"]
    by (simp add: format_def)
qed

subsection \<open>The salted target\<close>

text \<open>
  C5. For a node whose version is computed and whose \<^verbatim>\<open>salt_length\<close> is an integer
  \<open>n \<ge> 0\<close>, and for a pattern with a \<^verbatim>\<open>{salt}\<close> field between a part \<open>pre\<close> and
  a part \<open>post\<close> that format on their own, \<open>salt_target\<close> constructs the target
  at the path in which exactly the first \<open>n\<close> characters of the version stand for
  \<^verbatim>\<open>{salt}\<close>; these are \<open>n\<close> lowercase hexadecimal digits (the whole version when
  \<open>n \<ge> 64\<close>). With \<^verbatim>\<open>salt_length = 6\<close> and the pattern \<^verbatim>\<open>out-{salt}.csv\<close> the path is
  \<^verbatim>\<open>out-\<close>, the first six characters of the version, \<^verbatim>\<open>.csv\<close>.
\<close>

theorem salt_is_version_prefix:
  assumes "get_salted_version self = Inr version"
      and "getattr self ''salt_length'' = Some (PyInt n)" and "0 \<le> n"
      and "format pre (take (nat n) version) self = Inr pre'"
      and "format post (take (nat n) version) self = Inr post'"
  shows "salt_target self target_type (pre @ ''{salt}'' @ post) kwargs =
           Inr (target_type (pre' @ take (nat n) version @ post') kwargs)
       \<and> length (take (nat n) version) = min (nat n) 64
       \<and> set (take (nat n) version) \<subseteq> lowercase_hex"
proof -
  from get_salted_version_hex [OF assms(1)]
  have len: "length version = 64" and hex: "set version \<subseteq> lowercase_hex" by auto
  have "set (take (nat n) version) \<subseteq> set version" by (rule set_take_subset)
  with hex have "set (take (nat n) version) \<subseteq> lowercase_hex" by blast
  moreover have "salt_target self target_type (pre @ ''{salt}'' @ post) kwargs =
           Inr (target_type (pre' @ take (nat n) version @ post') kwargs)"
    using assms(1,2,3) format_salt [OF assms(4,5)] by (simp add: salt_target_def)
  ultimately show ?thesis using len by simp
qed


lemma sha256_parent_message:
  "hexdigest (sha256 (encode
     ''1b19b0a994292160e7589337e724fa174edd9d1194ae8deff80976ab097c064cP'')) =
     ''d83067f6b54ae90c27c12ee0d638c5a7a237a525ad2f6f64134af301b69f34d0''"
  by (simp add: sha256_eval del: list.size(4))

lemma parent_version:
  "get_salted_version parent =
     Inr ''d83067f6b54ae90c27c12ee0d638c5a7a237a525ad2f6f64134af301b69f34d0''"
proof -
  have "get_salted_version parent =
          Inr (hexdigest (sha256 (encode
            (''1b19b0a994292160e7589337e724fa174edd9d1194ae8deff80976ab097c064c'' @ ''P''))))"
    unfolding parent_def by (rule parent_digest [OF leaf_version]) simp_all
  then show ?thesis by (simp add: sha256_parent_message)
qed

theorem salt_is_version_prefix_witness:
  "get_salted_version parent =
     Inr ''d83067f6b54ae90c27c12ee0d638c5a7a237a525ad2f6f64134af301b69f34d0''
   \<and> getattr parent ''salt_length'' = Some (PyInt 6)
   \<and> salt_target parent LocalTarget ''out-{salt}.csv'' [] = Inr (LocalTarget ''out-d83067.csv'' [])"
proof -
  have a: "getattr parent ''salt_length'' = Some (PyInt 6)" by (simp add: parent_def)
  have p: "format ''out-'' (take (nat 6) ''d83067f6b54ae90c27c12ee0d638c5a7a237a525ad2f6f64134af301b69f34d0'') parent = Inr ''out-''"
    by (rule format_plain) simp_all
  have q: "format ''.csv'' (take (nat 6) ''d83067f6b54ae90c27c12ee0d638c5a7a237a525ad2f6f64134af301b69f34d0'') parent = Inr ''.csv''"
    by (rule format_plain) simp_all
  from salt_is_version_prefix [OF parent_version a _ p q, of LocalTarget "[]"] parent_version a
  show ?thesis by simp
qed

lemma identifier_no_brace:
  assumes "is_identifier name"
  shows "CHR ''{'' \<notin> set name \<and> CHR ''}'' \<notin> set name \<and> CHR ''.'' \<notin> set name"
proof -
  from assms have "\<forall>c \<in> set name. is_ident_char c"
    by (simp add: is_identifier_def list_all_iff)
  moreover have "\<not> is_ident_char CHR ''{''" "\<not> is_ident_char CHR ''}''" "\<not> is_ident_char CHR ''.''"
    by (simp_all add: is_ident_char_def)
  ultimately show ?thesis by blast
qed

lemma identifier_not_index:
  assumes "is_identifier name"
  shows "\<not> is_index name"
proof
  assume "is_index name"
  then have "\<forall>c \<in> set name. is_digit c" by (simp add: is_index_def list_all_iff)
  moreover from assms have "name \<noteq> []" "\<not> is_digit (hd name)" by (simp_all add: is_identifier_def)
  ultimately show False by (cases name) auto
qed

lemma get_field_unknown_name:
  assumes "is_identifier name" and "name \<noteq> ''salt''" and "name \<noteq> ''self''"
  shows "get_field salt self name = Inl (KeyError name)"
  using assms identifier_not_index [OF assms(1)] by (simp add: get_field_def)

lemma get_field_unknown_attribute:
  assumes "is_identifier name" and "getattr self name = None"
  shows "get_field salt self (''self.'' @ name) = Inl (AttributeError name)"
proof -
  have "\<not> is_index (''self.'' @ name)" by (simp add: is_index_def is_digit_def)
  moreover have "\<not> is_identifier (''self.'' @ name)"
    by (simp add: is_identifier_def is_ident_char_def)
  ultimately show ?thesis using assms by (simp add: get_field_def)
qed

lemma salt_target_format_error:
  assumes "\<forall>salt. \<exists>e. format file_pattern salt self = Inl e"
  shows "\<exists>e. salt_target self target_type file_pattern kwargs = Inl e"
proof (cases "get_salted_version self")
  case (Inl e)
  then show ?thesis by (simp add: salt_target_def)
next
  case (Inr version)
  show ?thesis
  proof (cases "getattr self ''salt_length''")
    case None
    with Inr show ?thesis by (simp add: salt_target_def)
  next
    case (Some salt_length)
    show ?thesis
    proof (cases "slice_to version salt_length")
      case (Inl e)
      with Inr Some show ?thesis by (simp add: salt_target_def)
    next
      case salt: (Inr salt)
      from assms obtain e where "format file_pattern salt self = Inl e" by blast
      with Inr Some salt show ?thesis by (simp add: salt_target_def)
    qed
  qed
qed

lemma format_bad_field:
  assumes "format pre salt self = Inr pre'"
      and "CHR ''{'' \<notin> set field" and "CHR ''}'' \<notin> set field"
      and "get_field salt self field = Inl e"
  shows "format (pre @ ''{'' @ field @ ''}'' @ post) salt self = Inl e"
proof -
  have "fmt (get_field salt self) None (''{'' @ field @ ''}'' @ post) = Inl e"
    using fmt_field [OF assms(2,3), of "get_field salt self" post] assms(4) by simp
  then show ?thesis
    using assms(1) fmt_append [of "get_field salt self" None pre pre' "''{'' @ field @ ''}'' @ post"]
    by (simp add: format_def)
qed

text \<open>
  C9. A pattern with a field that does not resolve, after a part \<open>pre\<close> that formats
  on its own: \<^verbatim>\<open>{name}\<close> for an identifier other than \<^verbatim>\<open>salt\<close> and \<^verbatim>\<open>self\<close>, or
  \<^verbatim>\<open>{self.name}\<close> for a name that is no attribute of the node. \<open>salt_target\<close> then
  raises and constructs no target, for every node; and when the salt itself is
  computed, what it raises is the error of the template, a \<open>TemplateResolutionError\<close>:
  \<^verbatim>\<open>KeyError\<close> for the unknown name, \<^verbatim>\<open>AttributeError\<close> for the unknown attribute.
\<close>

theorem unresolved_placeholder_fails:
  assumes "is_identifier name"
      and "field = name \<and> name \<noteq> ''salt'' \<and> name \<noteq> ''self'' \<and> e = KeyError name
         \<or> field = ''self.'' @ name \<and> getattr self name = None \<and> e = AttributeError name"
      and "\<forall>salt. \<exists>pre'. format pre salt self = Inr pre'"
  shows "(\<exists>e'. salt_target self target_type (pre @ ''{'' @ field @ ''}'' @ post) kwargs = Inl e')
       \<and> TemplateResolutionError e
       \<and> (\<forall>version salt_length salt.
            get_salted_version self = Inr version \<longrightarrow>
            getattr self ''salt_length'' = Some salt_length \<longrightarrow>
            slice_to version salt_length = Inr salt \<longrightarrow>
            salt_target self target_type (pre @ ''{'' @ field @ ''}'' @ post) kwargs = Inl e)"
proof -
  have nb: "CHR ''{'' \<notin> set field \<and> CHR ''}'' \<notin> set field"
    using assms(2) identifier_no_brace [OF assms(1)] by auto
  have gf: "get_field salt self field = Inl e" for salt
    using assms(2) get_field_unknown_name [OF assms(1)] get_field_unknown_attribute [OF assms(1)]
    by auto
  have fe: "format (pre @ ''{'' @ field @ ''}'' @ post) salt self = Inl e" for salt
  proof -
    from assms(3) obtain pre' where "format pre salt self = Inr pre'" by blast
    from format_bad_field [OF this _ _ gf] nb show ?thesis by blast
  qed
  then have "\<exists>e'. salt_target self target_type (pre @ ''{'' @ field @ ''}'' @ post) kwargs = Inl e'"
    by (intro salt_target_format_error) blast
  moreover have "\<forall>version salt_length salt.
            get_salted_version self = Inr version \<longrightarrow>
            getattr self ''salt_length'' = Some salt_length \<longrightarrow>
            slice_to version salt_length = Inr salt \<longrightarrow>
            salt_target self target_type (pre @ ''{'' @ field @ ''}'' @ post) kwargs = Inl e"
    using fe by (simp add: salt_target_def)
  moreover have "TemplateResolutionError e"
    using assms(2) by auto
  ultimately show ?thesis by blast
qed


theorem unresolved_placeholder_fails_witness:
  "is_identifier ''foo''
   \<and> salt_target parent LocalTarget ''out-{foo}.csv'' [] = Inl (KeyError ''foo'')
   \<and> getattr parent ''foo'' = None
   \<and> salt_target parent LocalTarget ''out-{self.foo}.csv'' [] = Inl (AttributeError ''foo'')"
proof -
  have i: "is_identifier ''foo''"
    by (simp add: is_identifier_def is_digit_def is_ident_char_def)
  have n: "getattr parent ''foo'' = None" by (simp add: parent_def)
  have p: "\<forall>salt. \<exists>pre'. format ''out-'' salt parent = Inr pre'"
    by (simp add: format_plain)
  have a: "getattr parent ''salt_length'' = Some (PyInt 6)" by (simp add: parent_def)
  have s: "slice_to ''d83067f6b54ae90c27c12ee0d638c5a7a237a525ad2f6f64134af301b69f34d0'' (PyInt 6)
             = Inr ''d83067''"
    by simp
  have "salt_target parent LocalTarget (''out-'' @ ''{'' @ ''foo'' @ ''}'' @ ''.csv'') []
          = Inl (KeyError ''foo'')"
    using unresolved_placeholder_fails
      [of "''foo''" "''foo''" "KeyError ''foo''" parent "''out-''" LocalTarget "''.csv''" "[]"]
      i p parent_version a s
    by blast
  moreover have "salt_target parent LocalTarget (''out-'' @ ''{'' @ (''self.'' @ ''foo'') @ ''}'' @ ''.csv'') []
          = Inl (AttributeError ''foo'')"
    using unresolved_placeholder_fails
      [of "''foo''" "''self.'' @ ''foo''" "AttributeError ''foo''" parent "''out-''" LocalTarget "''.csv''" "[]"]
      i n p parent_version a s
    by blast
  ultimately show ?thesis using i n by simp
qed

lemma sha256_unsalted_message:
  "hexdigest (sha256 (encode ''S,salt_length=6,salt_parameters=False,salt_workflow=False'')) =
     ''d8eb98c1ae64dbea5918c58709bfb8e2a9a3f864585743a21f17ea04ae75d406''"
  by (simp add: sha256_eval del: list.size(4))

lemma unsalted_message:
  "self_message ''S'' salted_task_params salt_workflow_off =
     Inr ''S,salt_length=6,salt_parameters=False,salt_workflow=False''"
  by (simp add: self_message_def param_pairs_def sorted_params_def format_pair_def
        salted_task_params_def salt_workflow_off_def dec_int_def dec_nat_digit)

lemma unsalted_version:
  "get_salted_version unsalted =
     Inr ''d8eb98c1ae64dbea5918c58709bfb8e2a9a3f864585743a21f17ea04ae75d406''"
  by (simp add: unsalted_def unsalted_message sha256_unsalted_message)

text \<open>
  C6. \<open>salt_target\<close> never reads \<^verbatim>\<open>salt_workflow\<close>. For the node \<open>unsalted\<close>, whose
  \<^verbatim>\<open>salt_workflow\<close> is \<^verbatim>\<open>False\<close>, the output location still carries the first six
  characters of the version.
\<close>

theorem salt_workflow_ignored:
  "getattr unsalted ''salt_workflow'' = Some (PyBool False)
   \<and> param_kwargs unsalted ''salt_workflow'' = Some (PyBool False)
   \<and> get_salted_version unsalted =
       Inr ''d8eb98c1ae64dbea5918c58709bfb8e2a9a3f864585743a21f17ea04ae75d406''
   \<and> salt_target unsalted LocalTarget ''out-{salt}.csv'' [] = Inr (LocalTarget ''out-d8eb98.csv'' [])"
proof -
  have "format (''out-'' @ ''{salt}'' @ ''.csv'') ''d8eb98'' unsalted = Inr (''out-'' @ ''d8eb98'' @ ''.csv'')"
    by (rule format_salt) (simp_all add: format_plain)
  then have "salt_target unsalted LocalTarget ''out-{salt}.csv'' [] = Inr (LocalTarget ''out-d8eb98.csv'' [])"
    by (simp add: salt_target_def unsalted_version) (simp add: unsalted_def salt_workflow_off_def)
  then show ?thesis
    by (simp add: unsalted_version) (simp add: unsalted_def salt_workflow_off_def)
qed

subsection \<open>Changes reach the hashed message\<close>

text \<open>
  SHA-256 maps messages of every length to 256 bits, so it is not injective, and that
  two given messages have different digests is known only by computing both. What holds
  for all nodes is stated for the bytes that are hashed: a change of the version of the
  requirement, or of the \<^verbatim>\<open>repr\<close> of the value of a significant parameter, changes
  them.
\<close>

lemma join_Cons: "join sep (x # xs) = x @ concat (map ((@) sep) xs)"
  by (induction xs arbitrary: x) simp_all

lemma utf8_not_Nil: "utf8 c \<noteq> []"
  by (simp add: Let_def)

lemma utf8_inj: "utf8 c @ bs = utf8 c' @ bs' \<Longrightarrow> c = c' \<and> bs = bs'"
proof -
  assume a: "utf8 c @ bs = utf8 c' @ bs'"
  let ?n = "of_char c :: nat" and ?n' = "of_char c' :: nat"
  have b: "?n < 256" "?n' < 256" by simp_all
  have "?n = ?n' \<and> bs = bs'"
  proof (cases "?n < 128"; cases "?n' < 128")
    assume "?n < 128" "?n' < 128"
    with a show ?thesis by (simp add: Let_def)
  next
    assume "?n < 128" "\<not> ?n' < 128"
    with a show ?thesis by (simp add: Let_def)
  next
    assume "\<not> ?n < 128" "?n' < 128"
    with a show ?thesis by (simp add: Let_def)
  next
    assume "\<not> ?n < 128" "\<not> ?n' < 128"
    with a have "?n div 64 = ?n' div 64" "?n mod 64 = ?n' mod 64" "bs = bs'"
      by (simp_all add: Let_def)
    then show ?thesis by (metis div_mult_mod_eq)
  qed
  then show ?thesis by simp
qed

lemma encode_inj: "encode s = encode s' \<Longrightarrow> s = s'"
proof (induction s arbitrary: s')
  case Nil
  then show ?case
    by (cases s') (simp_all add: encode_def utf8_not_Nil del: utf8.simps)
next
  case (Cons c s)
  show ?case
  proof (cases s')
    case Nil
    with Cons.prems show ?thesis by (simp add: encode_def utf8_not_Nil del: utf8.simps)
  next
    case (Cons c' t')
    with Cons.prems have "utf8 c @ encode s = utf8 c' @ encode t'"
      by (simp add: encode_def)
    from utf8_inj [OF this] Cons.IH Cons show ?thesis by simp
  qed
qed

lemma parent_message_changes:
  "salt \<noteq> salt' \<Longrightarrow> encode (salt @ ''P'') \<noteq> encode (salt' @ ''P'')"
  using encode_inj by fastforce

lemma significant_value_changes_message:
  assumes m: "self_message src ps kw = Inr m"
      and m': "self_message src ps (kw(param_name \<mapsto> v)) = Inr m'"
      and p: "(param_name, param) \<in> set ps" "significant param"
      and u: "kw param_name = Some u" "repr u \<noteq> repr v"
  shows "encode m \<noteq> encode m'"
proof -
  let ?S = "{n. \<exists>q. (n, q) \<in> set ps \<and> significant q}"
  let ?g = "\<lambda>n. n @ ''='' @ repr (the (kw n))"
  let ?g' = "\<lambda>n. n @ ''='' @ repr (the ((kw(param_name \<mapsto> v)) n))"
  from m obtain pairs where pairs: "param_pairs ps kw = Inr pairs" "m = join '','' (src # pairs)"
    by (auto simp: self_message_def split: sum.splits)
  from m' obtain pairs' where pairs':
    "param_pairs ps (kw(param_name \<mapsto> v)) = Inr pairs'" "m' = join '','' (src # pairs')"
    by (auto simp: self_message_def split: sum.splits)
  from param_pairs_sorted [OF pairs(1)] obtain names
    where names: "sorted names" "distinct names" "set names = ?S" "pairs = map ?g names" by blast
  from param_pairs_sorted [OF pairs'(1)] obtain names'
    where names': "sorted names'" "distinct names'" "set names' = ?S" "pairs' = map ?g' names'" by blast
  have same: "names' = names"
    using names(1,2,3) names'(1,2,3) by (intro sorted_distinct_set_unique) simp_all
  from p have "param_name \<in> set names" using names(3) by blast
  then obtain as bs where split: "names = as @ param_name # bs"
    by (meson split_list)
  with names(2) have notin: "param_name \<notin> set as" "param_name \<notin> set bs" by auto
  have as: "map ?g' as = map ?g as" and bs: "map ?g' bs = map ?g bs"
    using notin by (auto intro!: map_cong)
  have g: "?g param_name = param_name @ ''='' @ repr u"
    using u(1) by simp
  have g': "?g' param_name = param_name @ ''='' @ repr v"
    by simp
  have "pairs = map ?g as @ [param_name @ ''='' @ repr u] @ map ?g bs"
    unfolding names(4) split by (simp add: u(1))
  then have "m = (src @ concat (map ((@) '','') (map ?g as))) @ ('','' @ param_name @ ''='' @ repr u)
             @ concat (map ((@) '','') (map ?g bs))"
    unfolding pairs(2) join_Cons by simp
  moreover have "pairs' = map ?g as @ [param_name @ ''='' @ repr v] @ map ?g bs"
    unfolding names'(4) same split map_append list.map as bs by simp
  then have "m' = (src @ concat (map ((@) '','') (map ?g as))) @ ('','' @ param_name @ ''='' @ repr v)
             @ concat (map ((@) '','') (map ?g bs))"
    unfolding pairs'(2) join_Cons by simp
  ultimately have "m \<noteq> m'" using u(2) by simp
  then show ?thesis using encode_inj by blast
qed

text \<open>
  The scenario computed: with the date of the leaf changed, the version of the leaf and
  the version of the parent, itself unchanged, are both different.
\<close>

lemma sha256_leaf_next_day_message:
  "hexdigest (sha256 (encode ''L,date=2018-03-08'')) =
     ''ccdc978106d830d36017f0876a69d5775a46b8bc87bb49b87fa06ade8b7b6221''"
  by (simp add: sha256_eval del: list.size(4))

lemma leaf_next_day_version:
  "get_salted_version leaf_next_day =
     Inr ''ccdc978106d830d36017f0876a69d5775a46b8bc87bb49b87fa06ade8b7b6221''"
  unfolding leaf_next_day_def
  by (simp add: self_message_def param_pairs_def sorted_params_def format_pair_def
        sha256_leaf_next_day_message)

lemma sha256_parent_next_day_message:
  "hexdigest (sha256 (encode
     ''ccdc978106d830d36017f0876a69d5775a46b8bc87bb49b87fa06ade8b7b6221P'')) =
     ''d7b05f1b834a25054dc82049910b3fb06b1736d355563163c0ba176f6a2736bf''"
  by (simp add: sha256_eval del: list.size(4))

lemma parent_next_day_version:
  "get_salted_version parent_next_day =
     Inr ''d7b05f1b834a25054dc82049910b3fb06b1736d355563163c0ba176f6a2736bf''"
proof -
  have "get_salted_version parent_next_day =
          Inr (hexdigest (sha256 (encode
            (''ccdc978106d830d36017f0876a69d5775a46b8bc87bb49b87fa06ade8b7b6221'' @ ''P''))))"
    unfolding parent_next_day_def by (rule parent_digest [OF leaf_next_day_version]) simp_all
  then show ?thesis by (simp add: sha256_parent_next_day_message)
qed

lemma leaf_date_changes_parent_version:
  "get_salted_version leaf \<noteq> get_salted_version leaf_next_day
   \<and> get_salted_version parent \<noteq> get_salted_version parent_next_day"
  by (simp only: leaf_version leaf_next_day_version parent_version parent_next_day_version)
    simp

subsection \<open>The version is the SHA-256 hex digest of the message\<close>



subsection \<open>Repeated calls and the file system\<close>

lemma getsource_result:
  assumes "getsource file cls w = (r, tr, w')"
  shows "r = visible_source w file cls \<and> visible_source w' = visible_source w
       \<and> files w' = files w \<and> tr \<noteq> [] \<and> set tr \<subseteq> {Stat file, Read file}"
proof -
  have vis: "visible_source w' = visible_source w"
    using assms
    by (intro ext)
      (auto simp: getsource_def visible_source_def fun_upd_def
            split: option.splits prod.splits if_splits)
  show ?thesis
    using assms vis
    by (auto simp: getsource_def visible_source_def split: option.splits prod.splits if_splits)
qed

lemma io_results:
  "get_salted_version_io t w = (r, tr, w') \<Longrightarrow>
     r = version_from (visible_source w) t \<and> visible_source w' = visible_source w
     \<and> files w' = files w \<and> tr \<noteq> []
     \<and> (\<forall>e \<in> set tr. \<exists>file \<in> source_files t. e = Stat file \<or> e = Read file)"
  "versions_io ts w = (rs, tr, w') \<Longrightarrow>
     rs = sequence (map (version_from (visible_source w)) ts) \<and> visible_source w' = visible_source w
     \<and> files w' = files w
     \<and> (\<forall>e \<in> set tr. \<exists>t \<in> set ts. \<exists>file \<in> source_files t. e = Stat file \<or> e = Read file)
     \<and> (ts \<noteq> [] \<longrightarrow> tr \<noteq> [])"
proof (induction t w and ts w arbitrary: r tr w' and rs tr w'
       rule: get_salted_version_io_versions_io.induct)
  case (1 path cls ps kw reqs w)
  obtain rs tr0 w0 where reqs: "versions_io reqs w = (rs, tr0, w0)"
    by (cases "versions_io reqs w") auto
  note ih = "1.IH" [OF reqs]
  show ?case
  proof (cases rs)
    case (Inl e)
    with reqs "1.prems" have "r = Inl e" "tr = tr0" "w' = w0" by auto
    moreover from Inl ih have "reqs \<noteq> []" by auto
    moreover from Inl ih have "sequence (map (version_from (visible_source w)) reqs) = Inl e"
      by simp
    ultimately show ?thesis using ih by auto
  next
    case (Inr salts)
    obtain r1 tr1 w1 where src: "getsource path cls w0 = (r1, tr1, w1)"
      by (cases "getsource path cls w0") auto
    note g = getsource_result [OF src]
    from reqs Inr src "1.prems"
    have "tr = tr0 @ tr1" "w' = w1"
      by (auto split: sum.splits)
    moreover from Inr ih have seq: "sequence (map (version_from (visible_source w)) reqs) = Inr salts"
      by simp
    from g ih have vis: "r1 = visible_source w path cls" by simp
    from reqs Inr src "1.prems"
    have "r = version_from (visible_source w) (ClassTask path cls ps kw reqs)"
      by (auto simp: seq vis [symmetric] split: sum.splits)
    ultimately show ?thesis using g ih by auto
  qed
next
  case (2 w)
  then show ?case by simp
next
  case (3 req reqs w)
  obtain r1 tr1 w1 where first: "get_salted_version_io req w = (r1, tr1, w1)"
    by (cases "get_salted_version_io req w") auto
  note ih1 = "3.IH"(1) [OF first]
  show ?case
  proof (cases r1)
    case (Inl e)
    with first "3.prems" have "rs = Inl e" "tr = tr1" "w' = w1" by auto
    moreover from Inl ih1 have "version_from (visible_source w) req = Inl e" by simp
    ultimately show ?thesis using ih1 by auto
  next
    case (Inr salt)
    obtain r2 tr2 w2 where rest: "versions_io reqs w1 = (r2, tr2, w2)"
      by (cases "versions_io reqs w1") auto
    have ih2: "r2 = sequence (map (version_from (visible_source w1)) reqs)
        \<and> visible_source w2 = visible_source w1 \<and> files w2 = files w1
        \<and> (\<forall>e \<in> set tr2. \<exists>t \<in> set reqs. \<exists>file \<in> source_files t. e = Stat file \<or> e = Read file)
        \<and> (reqs \<noteq> [] \<longrightarrow> tr2 \<noteq> [])"
      using "3.IH"(2) [OF first [unfolded Inr, symmetric] refl refl rest] .
    from first Inr rest "3.prems"
    have "tr = tr1 @ tr2" "w' = w2"
      by (auto split: sum.splits)
    moreover from Inr ih1 have hd: "version_from (visible_source w) req = Inr salt" by simp
    from ih1 ih2 have tl: "sequence (map (version_from (visible_source w)) reqs) = r2" by simp
    from first Inr rest "3.prems"
    have "rs = sequence (map (version_from (visible_source w)) (req # reqs))"
      by (auto simp: hd tl split: sum.splits)
    ultimately show ?thesis using ih1 ih2 by auto
  qed
qed

text \<open>
  Where \<^verbatim>\<open>inspect.getsource\<close> returns a text for every class, the result of
  \<open>get_salted_version_io\<close> is that of \<open>get_salted_version\<close> on the node with these
  texts.
\<close>

lemma sequence_map_sum:
  "sequence (map (map_sum f (\<lambda>x. x)) rs) = map_sum f (\<lambda>x. x) (sequence rs)"
  by (induction rs rule: sequence.induct) (auto split: sum.splits)

lemma version_from_get_salted_version:
  "version_from (\<lambda>path cls. Inr (text path cls)) t
     = map_sum Raised (\<lambda>x. x) (get_salted_version (node_of text t))"
proof (induction t)
  case (ClassTask path cls ps kw reqs)
  let ?src = "\<lambda>path cls. Inr (text path cls) :: io_error + string"
  have "map (version_from ?src) reqs
          = map (map_sum Raised (\<lambda>x. x)) (map get_salted_version (map (node_of text) reqs))"
    using ClassTask by simp
  then have seq: "sequence (map (version_from ?src) reqs)
          = map_sum Raised (\<lambda>x. x) (sequence (map get_salted_version (map (node_of text) reqs)))"
    by (simp only: sequence_map_sum)
  show ?case
    by (cases "sequence (map get_salted_version (map (node_of text) reqs))";
        cases "self_message (text path cls) ps kw")
       (simp_all add: seq)
qed

lemma get_salted_version_io_result:
  assumes "visible_source w = (\<lambda>path cls. Inr (text path cls))"
  shows "fst (get_salted_version_io t w)
           = map_sum Raised (\<lambda>x. x) (get_salted_version (node_of text t))"
proof -
  obtain r tr w' where "get_salted_version_io t w = (r, tr, w')"
    by (cases "get_salted_version_io t w") auto
  with io_results(1) [OF this] assms show ?thesis
    by (simp add: version_from_get_salted_version)
qed






end
